theory Spec2Isabelle
  imports Main
begin

section \<open>Source resolution and repository references of \<open>kit init\<close>\<close>

text \<open>
  The development follows two source files: \<open>pkg/lib/hf/parse.go\<close>
  (\<open>ParseHuggingFaceRepo\<close>, \<open>isValidRepoFormat\<close>) and the \<open>kitinit\<close> command
  (\<open>detectRemoteRepo\<close>, \<open>isLocalPath\<close>, \<open>buildPackageFromRepo\<close>).
  Go strings are byte sequences; they are modelled as \<^typ>\<open>string\<close>, one \<^typ>\<open>char\<close> per byte.
\<close>

subsection \<open>The functions of Go's \<open>strings\<close> package that the code calls\<close>

definition HasPrefix :: "string \<Rightarrow> string \<Rightarrow> bool" where
  \<comment> \<open>\<open>strings.HasPrefix(s, prefix)\<close>\<close>
  "HasPrefix s p = (take (length p) s = p)"

definition TrimPrefix :: "string \<Rightarrow> string \<Rightarrow> string" where
  \<comment> \<open>\<open>strings.TrimPrefix(s, prefix)\<close>: \<open>s\<close> without the prefix, or \<open>s\<close> itself\<close>
  "TrimPrefix s p = (if HasPrefix s p then drop (length p) s else s)"

fun Contains :: "string \<Rightarrow> string \<Rightarrow> bool" where
  \<comment> \<open>\<open>strings.Contains(s, substr)\<close>: \<open>substr\<close> occurs at some offset of \<open>s\<close>\<close>
  "Contains [] sub = (sub = [])"
| "Contains (c # cs) sub = (HasPrefix (c # cs) sub \<or> Contains cs sub)"

fun Split :: "string \<Rightarrow> char \<Rightarrow> string list" where
  \<comment> \<open>\<open>strings.Split(s, sep)\<close> for a separator of one byte: the pieces between the
      separators, so one piece more than there are separators, and \<open>[""]\<close> for \<open>""\<close>\<close>
  "Split [] sep = [[]]"
| "Split (c # cs) sep =
     (if c = sep then [] # Split cs sep
      else (case Split cs sep of
              [] \<Rightarrow> [[c]]
            | p # ps \<Rightarrow> (c # p) # ps))"

definition Trim :: "string \<Rightarrow> string \<Rightarrow> string" where
  \<comment> \<open>\<open>strings.Trim(s, cutset)\<close>: all leading and trailing bytes of \<open>cutset\<close> removed\<close>
  "Trim s cutset =
     rev (dropWhile (\<lambda>c. c \<in> set cutset) (rev (dropWhile (\<lambda>c. c \<in> set cutset) s)))"

fun Join :: "string list \<Rightarrow> string \<Rightarrow> string" where
  \<comment> \<open>\<open>strings.Join(elems, sep)\<close>\<close>
  "Join [] sep = []"
| "Join [a] sep = a"
| "Join (a # b # xs) sep = a @ sep @ Join (b # xs) sep"

definition slice :: "'a list \<Rightarrow> nat \<Rightarrow> nat \<Rightarrow> 'a list" where
  \<comment> \<open>the slice expression \<open>xs[lo:hi]\<close>, which the code evaluates only with
      \<open>lo \<le> hi \<le> len(xs)\<close>\<close>
  "slice xs lo hi = take (hi - lo) (drop lo xs)"

subsection \<open>Repository references (\<open>pkg/lib/hf/parse.go\<close>)\<close>

text \<open>
  Modelled from the spec: the enumeration \<open>RepositoryKind\<close> (\<open>Unknown\<close>, \<open>Model\<close>,
  \<open>Dataset\<close>). The declaration of \<open>hf.RepositoryType\<close> and of its three constants is
  not among the sources; the constants keep the names the code uses.
\<close>

datatype RepositoryType = RepoTypeUnknown | RepoTypeModel | RepoTypeDataset

text \<open>
  \<open>url.Parse\<close> belongs to Go's standard library, not to this repository. The code reads
  two things of the URL it returns: \<open>parsedURL.Hostname()\<close> and \<open>parsedURL.Path\<close>.
  The parser is therefore a parameter of the model: a function from the string to an
  error or to these two observations. The general theorems hold for every such function.
\<close>

datatype url_error = UrlError

record URL =
  Hostname :: string
  Path :: string

text \<open>The six \<open>fmt.Errorf\<close> results of \<open>ParseHuggingFaceRepo\<close>, in source order, each with
  the value its message is formatted from.\<close>

datatype parse_error =
    InvalidDatasetFormat string
  | InvalidURLFormat url_error
  | UnsupportedHostname string
  | InvalidDatasetURL string
  | UnrecognizedURLPattern string
  | InvalidRepositoryFormat string

definition isValidRepoFormat :: "string \<Rightarrow> bool" where
  "isValidRepoFormat s =
     (let parts = Split s (CHR ''/'')
      in length parts = 2 \<and> parts ! 0 \<noteq> [] \<and> parts ! 1 \<noteq> [])"

text \<open>The three named results \<open>(repo, repoType, err)\<close> are a triple; \<open>err == nil\<close> is \<open>None\<close>.\<close>

definition ParseHuggingFaceRepo ::
  "(string \<Rightarrow> url_error + URL) \<Rightarrow> string \<Rightarrow> string \<times> RepositoryType \<times> parse_error option" where
  "ParseHuggingFaceRepo urlParse path =
     (if HasPrefix path ''datasets/'' then
        (let repo = TrimPrefix path ''datasets/'' in
         if \<not> isValidRepoFormat repo
         then ([], RepoTypeUnknown, Some (InvalidDatasetFormat path))
         else (repo, RepoTypeDataset, None))
      else if Contains path ''://'' \<or> HasPrefix path ''huggingface.co/'' then
        (let urlStr = (if \<not> Contains path ''://'' then ''https://'' @ path else path) in
         case urlParse urlStr of
           Inl e \<Rightarrow> ([], RepoTypeUnknown, Some (InvalidURLFormat e))
         | Inr parsedURL \<Rightarrow>
             if Hostname parsedURL \<noteq> ''huggingface.co''
             then ([], RepoTypeUnknown, Some (UnsupportedHostname (Hostname parsedURL)))
             else
               (let pathSegments = Split (Trim (Path parsedURL) ''/'') (CHR ''/'') in
                if length pathSegments \<ge> 1 \<and> pathSegments ! 0 = ''datasets'' then
                  (if length pathSegments \<ge> 3
                   then (Join (slice pathSegments 1 3) ''/'', RepoTypeDataset, None)
                   else ([], RepoTypeUnknown, Some (InvalidDatasetURL (Path parsedURL))))
                else if length pathSegments = 2
                then (Join pathSegments ''/'', RepoTypeModel, None)
                else ([], RepoTypeUnknown, Some (UnrecognizedURLPattern path))))
      else if isValidRepoFormat path then (path, RepoTypeModel, None)
      else ([], RepoTypeUnknown, Some (InvalidRepositoryFormat path)))"

subsection \<open>Path classification and package defaults (the \<open>kitinit\<close> command)\<close>

definition isLocalPath :: "string \<Rightarrow> bool" where
  \<comment> \<open>\<open>CHR 0x5C\<close> is the backslash; \<open>path[1]\<close> is read only when \<open>len(path) >= 2\<close>\<close>
  "isLocalPath path =
     (if path = ''.'' \<or> path = ''..'' then True
      else if HasPrefix path ''./'' \<or> HasPrefix path ''../'' then True
      else if path = ''~'' \<or> HasPrefix path ''~/'' \<or> HasPrefix path [CHR ''~'', CHR 0x5C] then True
      else if HasPrefix path ''/'' then True
      else if HasPrefix path [CHR 0x5C] \<or> (length path \<ge> 2 \<and> path ! 1 = CHR '':'') then True
      else False)"

text \<open>
  \<open>os.Stat\<close> is the one read of the filesystem. The code drops the file information and
  looks at the error only, so the filesystem is a parameter of the model: a function
  from the path to the error of \<open>os.Stat\<close>, \<open>None\<close> when the entry exists (\<open>err == nil\<close>).
\<close>

datatype stat_error = ErrNotExist | ErrPermission | ErrIO

definition detectRemoteRepo ::
  "(string \<Rightarrow> url_error + URL) \<Rightarrow> (string \<Rightarrow> stat_error option) \<Rightarrow> string
     \<Rightarrow> bool \<times> string \<times> RepositoryType" where
  "detectRemoteRepo urlParse stat path =
     (if isLocalPath path then (False, [], RepoTypeUnknown)
      else if stat path = None then (False, [], RepoTypeUnknown)
      else (case ParseHuggingFaceRepo urlParse path of
              (repo, repoType, None) \<Rightarrow> (True, repo, repoType)
            | (repo, repoType, Some err) \<Rightarrow> (False, [], RepoTypeUnknown)))"

text \<open>
  Modelled from the spec: \<open>ManifestDefaults\<close> with its fields name, description and
  authors. The declaration of \<open>artifact.Package\<close> is not among the sources; the record
  keeps the three fields that \<open>buildPackageFromRepo\<close> assigns, under the names the code
  uses, and a fresh \<open>&artifact.Package{}\<close> holds Go's zero values.
\<close>

record Package =
  Name :: string
  Description :: string
  Authors :: "string list"

definition buildPackageFromRepo :: "string \<Rightarrow> string \<Rightarrow> string \<Rightarrow> string \<Rightarrow> Package" where
  "buildPackageFromRepo repo name description author =
     (let sections = Split repo (CHR ''/'');
          p0 = \<lparr>Name = [], Description = [], Authors = []\<rparr>;
          p1 = (if name \<noteq> [] then p0\<lparr>Name := name\<rparr>
                else if length sections \<ge> 2
                then p0\<lparr>Name := sections ! (length sections - 1)\<rparr>
                else p0);
          p2 = (if description \<noteq> [] then p1\<lparr>Description := description\<rparr> else p1);
          p3 = (if author \<noteq> [] then p2\<lparr>Authors := Authors p2 @ [author]\<rparr>
                else if length sections \<ge> 2
                then p2\<lparr>Authors := Authors p2 @ [sections ! (length sections - 2)]\<rparr>
                else p2)
      in p3)"

subsection \<open>Concrete surroundings for the examples\<close>

text \<open>
  \<open>url_Parse_plain\<close> stands for the library's \<open>url.Parse\<close>, followed by the reads of
  \<open>Hostname()\<close> and \<open>Path\<close>, on plain absolute URLs only:
  \<open>scheme://host\<close>, then an optional \<open>:port\<close> of decimal digits, then an optional path that
  starts with \<open>/\<close>; the host made of letters, digits, \<open>-\<close> and \<open>.\<close>, the path of letters,
  digits and \<open>- . _ ~ /\<close>. On these the library returns the host without the port and the
  path unchanged. Every other string (user information, query, fragment, percent escapes,
  bracketed addresses, a missing scheme, control bytes) is outside this model: it answers
  \<open>UrlError\<close> there, and nothing is concluded about the library from that answer. It is
  used for the closed examples only.
\<close>

definition isLetter :: "char \<Rightarrow> bool" where
  "isLetter c = (c \<in> set ''abcdefghijklmnopqrstuvwxyzABCDEFGHIJKLMNOPQRSTUVWXYZ'')"

definition isDigit :: "char \<Rightarrow> bool" where
  "isDigit c = (c \<in> set ''0123456789'')"

definition plainScheme :: "string \<Rightarrow> bool" where
  "plainScheme scheme =
     (case scheme of
        [] \<Rightarrow> False
      | c # cs \<Rightarrow> isLetter c \<and> list_all (\<lambda>d. isLetter d \<or> isDigit d \<or> d \<in> set ''+-.'') cs)"

definition url_Parse_plain :: "string \<Rightarrow> url_error + URL" where
  "url_Parse_plain rawURL =
     (let scheme = takeWhile (\<lambda>c. c \<noteq> CHR '':'') rawURL;
          rest = drop (length scheme) rawURL
      in if plainScheme scheme \<and> HasPrefix rest ''://'' then
           (let afterSlashes = drop 3 rest;
                authority = takeWhile (\<lambda>c. c \<noteq> CHR ''/'') afterSlashes;
                urlPath = dropWhile (\<lambda>c. c \<noteq> CHR ''/'') afterSlashes;
                host = takeWhile (\<lambda>c. c \<noteq> CHR '':'') authority;
                colonPort = dropWhile (\<lambda>c. c \<noteq> CHR '':'') authority
            in if list_all (\<lambda>c. isLetter c \<or> isDigit c \<or> c \<in> set ''-.'') host
                  \<and> list_all isDigit (drop 1 colonPort)
                  \<and> list_all (\<lambda>c. isLetter c \<or> isDigit c \<or> c \<in> set ''-._~/'') urlPath
               then Inr \<lparr>Hostname = host, Path = urlPath\<rparr>
               else Inl UrlError)
         else Inl UrlError)"

text \<open>Three filesystems: one where no path exists, one where every \<open>os.Stat\<close> is refused,
  and one that holds the directory \<open>models/my-model\<close>.\<close>

definition fs_empty :: "string \<Rightarrow> stat_error option" where
  "fs_empty p = Some ErrNotExist"

definition fs_denied :: "string \<Rightarrow> stat_error option" where
  "fs_denied p = Some ErrPermission"

definition fs_models :: "string \<Rightarrow> stat_error option" where
  "fs_models p = (if p = ''models'' \<or> p = ''models/my-model'' then None else Some ErrNotExist)"

section \<open>Facts about the string functions\<close>

lemma Split_not_Nil: "Split s c \<noteq> []"
  by (induction s) (auto split: list.splits)

lemma length_Split: "length (Split s c) = Suc (length (filter (\<lambda>x. x = c) s))"
  by (induction s) (auto split: list.splits simp: Split_not_Nil)

lemma Split_no_sep: "c \<notin> set s \<Longrightarrow> Split s c = [s]"
  by (induction s) auto

lemma Split_append_sep: "c \<notin> set a \<Longrightarrow> Split (a @ c # b) c = a # Split b c"
  by (induction a) auto

lemma Split_two_iff:
  "Split s c = [a, b] \<longleftrightarrow> s = a @ c # b \<and> c \<notin> set a \<and> c \<notin> set b"
proof
  assume h: "Split s c = [a, b]"
  then show "s = a @ c # b \<and> c \<notin> set a \<and> c \<notin> set b"
  proof (induction s arbitrary: a)
    case Nil
    then show ?case by simp
  next
    case (Cons x xs)
    show ?case
    proof (cases "x = c")
      case True
      with Cons.prems have "a = []" "Split xs c = [b]" by auto
      moreover from this have "c \<notin> set xs"
        using length_Split [of xs c] by (auto simp: filter_empty_conv)
      ultimately show ?thesis using True Split_no_sep [of c xs] by auto
    next
      case False
      with Cons.prems obtain a' where "a = x # a'" "Split xs c = [a', b]"
        by (auto split: list.splits)
      with Cons.IH [of a'] False show ?thesis by auto
    qed
  qed
next
  assume "s = a @ c # b \<and> c \<notin> set a \<and> c \<notin> set b"
  then show "Split s c = [a, b]"
    by (simp add: Split_append_sep Split_no_sep)
qed

lemma isValidRepoFormat_iff:
  "isValidRepoFormat s \<longleftrightarrow>
     (\<exists>a b. s = a @ ''/'' @ b \<and> a \<noteq> [] \<and> b \<noteq> [] \<and> CHR ''/'' \<notin> set a \<and> CHR ''/'' \<notin> set b)"
proof
  assume "isValidRepoFormat s"
  then obtain a b where "Split s (CHR ''/'') = [a, b]" "a \<noteq> []" "b \<noteq> []"
    by (auto simp: isValidRepoFormat_def Let_def length_Suc_conv numeral_2_eq_2)
  then show "\<exists>a b. s = a @ ''/'' @ b \<and> a \<noteq> [] \<and> b \<noteq> [] \<and> CHR ''/'' \<notin> set a \<and> CHR ''/'' \<notin> set b"
    using Split_two_iff [of s "CHR ''/''" a b] by auto
next
  assume "\<exists>a b. s = a @ ''/'' @ b \<and> a \<noteq> [] \<and> b \<noteq> [] \<and> CHR ''/'' \<notin> set a \<and> CHR ''/'' \<notin> set b"
  then obtain a b where "s = a @ CHR ''/'' # b" "a \<noteq> []" "b \<noteq> []" "CHR ''/'' \<notin> set a" "CHR ''/'' \<notin> set b"
    by auto
  then have "Split s (CHR ''/'') = [a, b]" using Split_two_iff [of s "CHR ''/''" a b] by simp
  then show "isValidRepoFormat s" using \<open>a \<noteq> []\<close> \<open>b \<noteq> []\<close>
    by (simp add: isValidRepoFormat_def)
qed

lemma Contains_iff: "Contains s sub \<longleftrightarrow> (\<exists>a b. s = a @ sub @ b)"
proof (induction s)
  case Nil
  then show ?case by auto
next
  case (Cons c cs)
  show ?case
  proof
    assume "Contains (c # cs) sub"
    then consider "HasPrefix (c # cs) sub" | "Contains cs sub" by auto
    then show "\<exists>a b. c # cs = a @ sub @ b"
    proof cases
      case 1
      then have "c # cs = [] @ sub @ drop (length sub) (c # cs)"
        unfolding HasPrefix_def by (metis append_Nil append_take_drop_id)
      then show ?thesis by blast
    next
      case 2
      with Cons.IH obtain a b where "cs = a @ sub @ b" by auto
      then have "c # cs = (c # a) @ sub @ b" by simp
      then show ?thesis by blast
    qed
  next
    assume "\<exists>a b. c # cs = a @ sub @ b"
    then obtain a b where ab: "c # cs = a @ sub @ b" by auto
    show "Contains (c # cs) sub"
    proof (cases a)
      case Nil
      with ab have "HasPrefix (c # cs) sub" by (simp add: HasPrefix_def)
      then show ?thesis by simp
    next
      case (Cons x a')
      with ab have "cs = a' @ sub @ b" by simp
      with Cons.IH show ?thesis by auto
    qed
  qed
qed

lemma Contains_scheme_sep_slashes:
  "Contains s ''://'' \<Longrightarrow> 2 \<le> length (filter (\<lambda>x. x = CHR ''/'') s)"
  by (auto simp: Contains_iff)

lemma isValidRepoFormat_no_scheme_sep: "isValidRepoFormat s \<Longrightarrow> \<not> Contains s ''://''"
  using Contains_scheme_sep_slashes [of s] length_Split [of s "CHR ''/''"]
  by (auto simp: isValidRepoFormat_def Let_def)

lemma HasPrefix_Nil [simp]: "HasPrefix s []"
  by (simp add: HasPrefix_def)

lemma HasPrefix_iff: "HasPrefix s p \<longleftrightarrow> (\<exists>t. s = p @ t)"
  unfolding HasPrefix_def by (metis append_eq_conv_conj append_take_drop_id)

lemma leading_slash_invalid: "HasPrefix s ''/'' \<Longrightarrow> \<not> isValidRepoFormat s"
  by (auto simp: HasPrefix_iff isValidRepoFormat_def Let_def)

lemma trailing_slash_invalid: "\<not> isValidRepoFormat (t @ ''/'')"
proof
  assume "isValidRepoFormat (t @ ''/'')"
  then obtain a b where ab: "t @ ''/'' = a @ ''/'' @ b" "b \<noteq> []" "CHR ''/'' \<notin> set b"
    unfolding isValidRepoFormat_iff by blast
  then have "last (t @ ''/'') = last b" by simp
  then have "CHR ''/'' = last b" by simp
  with ab show False using last_in_set by metis
qed

lemma doubled_slash_invalid: "Contains s ''//'' \<Longrightarrow> \<not> isValidRepoFormat s"
proof
  assume c: "Contains s ''//''" and v: "isValidRepoFormat s"
  from c obtain x y where s: "s = x @ ''//'' @ y" unfolding Contains_iff by blast
  from v obtain a b where ab: "Split s (CHR ''/'') = [a, b]" "a \<noteq> []" "b \<noteq> []"
    by (auto simp: isValidRepoFormat_def Let_def length_Suc_conv numeral_2_eq_2)
  have "CHR ''/'' \<notin> set x" 
  proof
    assume "CHR ''/'' \<in> set x"
    then have "3 \<le> length (filter (\<lambda>c. c = CHR ''/'') s)" 
      using s by (auto simp: filter_empty_conv Suc_le_eq intro!: length_pos_if_in_set)
    then show False using length_Split [of s "CHR ''/''"] ab by simp
  qed
  then have "Split s (CHR ''/'') = x # [] # Split y (CHR ''/'')"
    using s by (simp add: Split_append_sep)
  with ab show False by simp
qed

lemma datasets_strip_keeps_scheme_sep:
  "HasPrefix path ''datasets/'' \<Longrightarrow> Contains path ''://'' \<Longrightarrow> Contains (TrimPrefix path ''datasets/'') ''://''"
  by (auto simp: HasPrefix_iff TrimPrefix_def HasPrefix_def)

lemma datasets_not_host_prefix:
  "HasPrefix path ''datasets/'' \<Longrightarrow> \<not> HasPrefix path ''huggingface.co/''"
  by (auto simp: HasPrefix_iff)

subsection \<open>What a call of the parser returns\<close>

lemma slice_1_3: "3 \<le> length xs \<Longrightarrow> slice xs (Suc 0) 3 = [xs ! 1, xs ! 2]"
proof -
  assume "3 \<le> length xs"
  then obtain a b c ys where "xs = a # b # c # ys"
    by (metis Suc_le_length_iff numeral_3_eq_3)
  then show ?thesis by (simp add: slice_def)
qed

lemma Join_two_not_Nil: "length xs = 2 \<Longrightarrow> Join xs ''/'' \<noteq> []"
  by (auto simp: length_Suc_conv numeral_2_eq_2)

lemma isValidRepoFormat_not_Nil: "isValidRepoFormat s \<Longrightarrow> s \<noteq> []"
  by (auto simp: isValidRepoFormat_def)

lemma ParseHuggingFaceRepo_success:
  assumes "ParseHuggingFaceRepo urlParse path = (repo, repoType, None)"
  shows "repo \<noteq> [] \<and> (repoType = RepoTypeModel \<or> repoType = RepoTypeDataset)"
  using assms
  by (auto simp: ParseHuggingFaceRepo_def Let_def slice_1_3 Join_two_not_Nil
      isValidRepoFormat_not_Nil split: if_splits sum.splits)

lemma ParseHuggingFaceRepo_failure:
  assumes "ParseHuggingFaceRepo urlParse path = (repo, repoType, Some e)"
  shows "repo = [] \<and> repoType = RepoTypeUnknown"
  using assms
  by (auto simp: ParseHuggingFaceRepo_def Let_def split: if_splits sum.splits)

text \<open>
  Where the identifier is in the form \<open>owner/name\<close>: in every successful result of kind
  \<open>Model\<close> (the model URL and the short form), and in the dataset short form. The
  dataset URL is the branch left over.
\<close>

lemma Trim_ends:
  assumes "Trim s cutset \<noteq> []"
  shows "hd (Trim s cutset) \<notin> set cutset \<and> last (Trim s cutset) \<notin> set cutset"
proof -
  define P where "P = (\<lambda>c. c \<in> set cutset)"
  define t where "t = dropWhile P s"
  define u where "u = dropWhile P (rev t)"
  have tr: "Trim s cutset = rev u" by (simp add: Trim_def u_def t_def P_def)
  with assms have u: "u \<noteq> []" by simp
  then have "\<not> P (hd u)" unfolding u_def by (rule hd_dropWhile)
  then have l: "last (Trim s cutset) \<notin> set cutset"
    using u tr by (simp add: last_rev P_def)
  have split_rev: "rev t = takeWhile P (rev t) @ u" by (simp add: u_def)
  from u have t: "t \<noteq> []" by (auto simp: u_def)
  have "last u = last (rev t)" using u split_rev by (metis last_appendR)
  also have "\<dots> = hd t" using t by (simp add: last_rev)
  finally have "hd (rev u) = hd t" using u by (simp add: hd_rev)
  moreover have "\<not> P (hd t)" using t unfolding t_def by (rule hd_dropWhile)
  ultimately have "hd (Trim s cutset) \<notin> set cutset" using tr by (simp add: P_def)
  with l show ?thesis by simp
qed

lemma url_model_segments_valid:
  assumes "length (Split (Trim p ''/'') (CHR ''/'')) = 2"
  shows "isValidRepoFormat (Join (Split (Trim p ''/'') (CHR ''/'')) ''/'')"
proof -
  from assms obtain a b where ab: "Split (Trim p ''/'') (CHR ''/'') = [a, b]"
    by (auto simp: length_Suc_conv numeral_2_eq_2)
  then have t: "Trim p ''/'' = a @ CHR ''/'' # b" "CHR ''/'' \<notin> set a" "CHR ''/'' \<notin> set b"
    using Split_two_iff [of "Trim p ''/''" "CHR ''/''" a b] by simp_all
  then have ne: "Trim p ''/'' \<noteq> []" by simp
  from Trim_ends [OF ne] have e: "hd (Trim p ''/'') \<noteq> CHR ''/''" "last (Trim p ''/'') \<noteq> CHR ''/''"
    by simp_all
  have "a \<noteq> []" using e(1) t(1) by (cases a) auto
  moreover have "b \<noteq> []" using e(2) t(1) by (cases b) auto
  ultimately have "isValidRepoFormat (a @ ''/'' @ b)"
    unfolding isValidRepoFormat_iff using t by blast
  with ab show ?thesis by simp
qed

lemma model_identifier_normalized:
  assumes "ParseHuggingFaceRepo urlParse path = (repo, RepoTypeModel, None)"
  shows "isValidRepoFormat repo"
  using assms
  by (auto simp: ParseHuggingFaceRepo_def Let_def url_model_segments_valid
      split: if_splits sum.splits)

lemma dataset_short_form_identifier_normalized:
  assumes "HasPrefix path ''datasets/''"
    and "ParseHuggingFaceRepo urlParse path = (repo, repoType, None)"
  shows "isValidRepoFormat repo \<and> repoType = RepoTypeDataset"
  using assms
  by (auto simp: ParseHuggingFaceRepo_def Let_def split: if_splits)

section \<open>The claims\<close>

subsection \<open>The two-segment format rule\<close>

text \<open>
  C8. \<open>isValidRepoFormat\<close> accepts a string exactly when splitting it on \<open>/\<close> yields
  two parts, both non-empty; that is, when the string has one slash, with something
  before it and something after it. So \<open>owner\<close> (one part) and \<open>owner/name/extra\<close>
  (three parts) fail short-form parsing, and \<open>datasets/owner\<close> (two parts, of which
  \<open>owner\<close> alone is left once the prefix is stripped) fails dataset short-form parsing,
  whatever the URL parser. A string with a leading slash, a trailing slash or a doubled
  slash fails the rule.
\<close>

theorem two_segment_format_rule:
  "(isValidRepoFormat s \<longleftrightarrow>
      (\<exists>a b. Split s (CHR ''/'') = [a, b] \<and> a \<noteq> [] \<and> b \<noteq> []))
   \<and> (isValidRepoFormat s \<longleftrightarrow>
      (\<exists>a b. s = a @ ''/'' @ b \<and> a \<noteq> [] \<and> b \<noteq> []
             \<and> CHR ''/'' \<notin> set a \<and> CHR ''/'' \<notin> set b))
   \<and> ParseHuggingFaceRepo urlParse ''owner''
        = ([], RepoTypeUnknown, Some (InvalidRepositoryFormat ''owner''))
   \<and> ParseHuggingFaceRepo urlParse ''owner/name/extra''
        = ([], RepoTypeUnknown, Some (InvalidRepositoryFormat ''owner/name/extra''))
   \<and> ParseHuggingFaceRepo urlParse ''datasets/owner''
        = ([], RepoTypeUnknown, Some (InvalidDatasetFormat ''datasets/owner''))
   \<and> (HasPrefix s ''/'' \<longrightarrow> \<not> isValidRepoFormat s)
   \<and> (s \<noteq> [] \<and> last s = CHR ''/'' \<longrightarrow> \<not> isValidRepoFormat s)
   \<and> (Contains s ''//'' \<longrightarrow> \<not> isValidRepoFormat s)"
proof -
  have rule: "isValidRepoFormat s \<longleftrightarrow>
      (\<exists>a b. Split s (CHR ''/'') = [a, b] \<and> a \<noteq> [] \<and> b \<noteq> [])"
    by (auto simp: isValidRepoFormat_def Let_def length_Suc_conv numeral_2_eq_2)
  have one: "ParseHuggingFaceRepo urlParse ''owner''
        = ([], RepoTypeUnknown, Some (InvalidRepositoryFormat ''owner''))"
    by (simp add: ParseHuggingFaceRepo_def HasPrefix_def isValidRepoFormat_def)
  have three: "ParseHuggingFaceRepo urlParse ''owner/name/extra''
        = ([], RepoTypeUnknown, Some (InvalidRepositoryFormat ''owner/name/extra''))"
    by (simp add: ParseHuggingFaceRepo_def HasPrefix_def isValidRepoFormat_def)
  have ds: "ParseHuggingFaceRepo urlParse ''datasets/owner''
        = ([], RepoTypeUnknown, Some (InvalidDatasetFormat ''datasets/owner''))"
    by (simp add: ParseHuggingFaceRepo_def HasPrefix_def TrimPrefix_def isValidRepoFormat_def)
  have trail: "s \<noteq> [] \<and> last s = CHR ''/'' \<longrightarrow> \<not> isValidRepoFormat s"
  proof
    assume "s \<noteq> [] \<and> last s = CHR ''/''"
    then have "s = butlast s @ ''/''" using append_butlast_last_id [of s] by simp
    then show "\<not> isValidRepoFormat s" using trailing_slash_invalid [of "butlast s"] by simp
  qed
  show ?thesis
    using rule isValidRepoFormat_iff [of s] one three ds trail
      leading_slash_invalid doubled_slash_invalid
    by blast
qed

theorem two_segment_format_rule_witness:
  "HasPrefix ''/owner//name/'' ''/'' \<and> last ''/owner//name/'' = CHR ''/''
   \<and> Contains ''/owner//name/'' ''//'' \<and> \<not> isValidRepoFormat ''/owner//name/''
   \<and> Split ''owner/name'' (CHR ''/'') = [''owner'', ''name''] \<and> isValidRepoFormat ''owner/name''"
proof -
  have a: "HasPrefix ''/owner//name/'' ''/''" by (simp add: HasPrefix_def)
  have b: "last ''/owner//name/'' = CHR ''/''" by simp
  have c: "Contains ''/owner//name/'' ''//''" by (simp add: HasPrefix_def)
  have d: "Split ''owner/name'' (CHR ''/'') = [''owner'', ''name'']" by simp
  from two_segment_format_rule [of "''/owner//name/''"] a
  have e: "\<not> isValidRepoFormat ''/owner//name/''" by blast
  from two_segment_format_rule [of "''owner/name''"] d
  have f: "isValidRepoFormat ''owner/name''" by blast
  from a b c d e f show ?thesis by blast
qed

subsection \<open>Short-form round trip\<close>

text \<open>
  C5, as amended. A valid \<open>owner/name\<close> short form that begins neither with
  \<open>datasets/\<close> nor with \<open>huggingface.co/\<close> parses to itself, unchanged, with kind
  \<open>Model\<close>, whatever the URL parser. The two prefixes are tested before the short form:
  \<open>datasets/squad\<close> has two non-empty segments and is refused as a dataset reference,
  which is the counterexample to the claim as it was stated.
\<close>

theorem short_form_round_trip:
  assumes "isValidRepoFormat s"
    and "\<not> HasPrefix s ''datasets/''"
    and "\<not> HasPrefix s ''huggingface.co/''"
  shows "ParseHuggingFaceRepo urlParse s = (s, RepoTypeModel, None)"
  using assms isValidRepoFormat_no_scheme_sep [of s]
  by (simp add: ParseHuggingFaceRepo_def)

theorem short_form_round_trip_witness:
  "isValidRepoFormat ''myorg/mymodel''
   \<and> \<not> HasPrefix ''myorg/mymodel'' ''datasets/''
   \<and> \<not> HasPrefix ''myorg/mymodel'' ''huggingface.co/''
   \<and> ParseHuggingFaceRepo url_Parse_plain ''myorg/mymodel'' = (''myorg/mymodel'', RepoTypeModel, None)"
proof -
  have a: "isValidRepoFormat ''myorg/mymodel''" by (simp add: isValidRepoFormat_def)
  have b: "\<not> HasPrefix ''myorg/mymodel'' ''datasets/''" by (simp add: HasPrefix_def)
  have c: "\<not> HasPrefix ''myorg/mymodel'' ''huggingface.co/''" by (simp add: HasPrefix_def)
  from a b c short_form_round_trip [OF a b c, of url_Parse_plain] show ?thesis by blast
qed

theorem short_form_round_trip_counterexample:
  "isValidRepoFormat ''datasets/squad''
   \<and> ParseHuggingFaceRepo url_Parse_plain ''datasets/squad''
       = ([], RepoTypeUnknown, Some (InvalidDatasetFormat ''datasets/squad''))
   \<and> ParseHuggingFaceRepo url_Parse_plain ''datasets/squad''
       \<noteq> (''datasets/squad'', RepoTypeModel, None)"
  by (simp add: ParseHuggingFaceRepo_def HasPrefix_def TrimPrefix_def isValidRepoFormat_def)

subsection \<open>Host validation\<close>

text \<open>
  C1. Let the input be of the URL form: it contains \<open>://\<close> or begins with
  \<open>huggingface.co/\<close>. Whatever the URL parser, \<open>ParseHuggingFaceRepo\<close> succeeds only
  if the parser returned a URL whose hostname is exactly \<open>huggingface.co\<close>
  (for the input itself, or for the input behind \<open>https://\<close> when it has no \<open>://\<close>).
  When the parser returns any other hostname, the call fails with an empty identifier and
  kind \<open>Unknown\<close>; the error names the hostname, unless the input began with
  \<open>datasets/\<close>, where the dataset short form has already refused it.
\<close>

theorem host_validation:
  assumes "Contains path ''://'' \<or> HasPrefix path ''huggingface.co/''"
  shows "((\<exists>repo repoType. ParseHuggingFaceRepo urlParse path = (repo, repoType, None)) \<longrightarrow>
            (\<exists>u. urlParse (if Contains path ''://'' then path else ''https://'' @ path) = Inr u
                 \<and> Hostname u = ''huggingface.co''))
       \<and> (\<forall>u. urlParse (if Contains path ''://'' then path else ''https://'' @ path) = Inr u
                 \<and> Hostname u \<noteq> ''huggingface.co'' \<longrightarrow>
             ParseHuggingFaceRepo urlParse path
               = ([], RepoTypeUnknown,
                  Some (if HasPrefix path ''datasets/'' then InvalidDatasetFormat path
                        else UnsupportedHostname (Hostname u))))"
proof (cases "HasPrefix path ''datasets/''")
  case True
  with assms have "Contains path ''://''" using datasets_not_host_prefix by blast
  with True have "Contains (TrimPrefix path ''datasets/'') ''://''"
    by (rule datasets_strip_keeps_scheme_sep)
  then have "\<not> isValidRepoFormat (TrimPrefix path ''datasets/'')"
    using isValidRepoFormat_no_scheme_sep by blast
  with True have "ParseHuggingFaceRepo urlParse path
      = ([], RepoTypeUnknown, Some (InvalidDatasetFormat path))"
    by (simp add: ParseHuggingFaceRepo_def)
  with True show ?thesis by simp
next
  case False
  with assms show ?thesis
    by (auto simp: ParseHuggingFaceRepo_def Let_def split: sum.splits if_splits)
qed

theorem host_validation_witness:
  "Contains ''https://huggingface.co.evil.com/org/repo'' ''://''
   \<and> url_Parse_plain ''https://huggingface.co.evil.com/org/repo''
       = Inr \<lparr>Hostname = ''huggingface.co.evil.com'', Path = ''/org/repo''\<rparr>
   \<and> ParseHuggingFaceRepo url_Parse_plain ''https://huggingface.co.evil.com/org/repo''
       = ([], RepoTypeUnknown, Some (UnsupportedHostname ''huggingface.co.evil.com''))
   \<and> ParseHuggingFaceRepo url_Parse_plain ''https://evilhuggingface.co/org/repo''
       = ([], RepoTypeUnknown, Some (UnsupportedHostname ''evilhuggingface.co''))
   \<and> ParseHuggingFaceRepo url_Parse_plain ''https://huggingface.co.attacker.com/org/repo''
       = ([], RepoTypeUnknown, Some (UnsupportedHostname ''huggingface.co.attacker.com''))
   \<and> ParseHuggingFaceRepo url_Parse_plain ''https://HuggingFace.co/org/repo''
       = ([], RepoTypeUnknown, Some (UnsupportedHostname ''HuggingFace.co''))
   \<and> ParseHuggingFaceRepo url_Parse_plain ''https://huggingface.co/org/repo''
       = (''org/repo'', RepoTypeModel, None)"
proof -
  note ev = url_Parse_plain_def plainScheme_def isLetter_def isDigit_def HasPrefix_def
  let ?p = "''https://huggingface.co.evil.com/org/repo''"
  have a: "Contains ?p ''://''" by (simp add: HasPrefix_def)
  have b: "url_Parse_plain ?p = Inr \<lparr>Hostname = ''huggingface.co.evil.com'', Path = ''/org/repo''\<rparr>"
    by (simp add: ev)
  have c: "\<not> HasPrefix ?p ''datasets/''" by (simp add: HasPrefix_def)
  have "Contains ?p ''://'' \<or> HasPrefix ?p ''huggingface.co/''" using a by blast
  from host_validation [OF this, of url_Parse_plain] a b c
  have r1: "ParseHuggingFaceRepo url_Parse_plain ?p
       = ([], RepoTypeUnknown, Some (UnsupportedHostname ''huggingface.co.evil.com''))"
    by simp
  let ?q = "''https://evilhuggingface.co/org/repo''"
  have qa: "Contains ?q ''://'' \<or> HasPrefix ?q ''huggingface.co/''" by (simp add: HasPrefix_def)
  have qb: "url_Parse_plain ?q = Inr \<lparr>Hostname = ''evilhuggingface.co'', Path = ''/org/repo''\<rparr>"
    by (simp add: ev)
  have qc: "\<not> HasPrefix ?q ''datasets/''" "Contains ?q ''://''" by (simp_all add: HasPrefix_def)
  from host_validation [OF qa, of url_Parse_plain] qb qc
  have r2: "ParseHuggingFaceRepo url_Parse_plain ?q
       = ([], RepoTypeUnknown, Some (UnsupportedHostname ''evilhuggingface.co''))"
    by simp
  let ?t = "''https://huggingface.co.attacker.com/org/repo''"
  have ta: "Contains ?t ''://'' \<or> HasPrefix ?t ''huggingface.co/''" by (simp add: HasPrefix_def)
  have tb: "url_Parse_plain ?t = Inr \<lparr>Hostname = ''huggingface.co.attacker.com'', Path = ''/org/repo''\<rparr>"
    by (simp add: ev)
  have tc: "\<not> HasPrefix ?t ''datasets/''" "Contains ?t ''://''" by (simp_all add: HasPrefix_def)
  from host_validation [OF ta, of url_Parse_plain] tb tc
  have r3: "ParseHuggingFaceRepo url_Parse_plain ?t
       = ([], RepoTypeUnknown, Some (UnsupportedHostname ''huggingface.co.attacker.com''))"
    by simp
  have r4: "ParseHuggingFaceRepo url_Parse_plain ''https://huggingface.co/org/repo''
       = (''org/repo'', RepoTypeModel, None)"
    by (simp add: ParseHuggingFaceRepo_def ev Trim_def)
  have r5: "ParseHuggingFaceRepo url_Parse_plain ''https://HuggingFace.co/org/repo''
       = ([], RepoTypeUnknown, Some (UnsupportedHostname ''HuggingFace.co''))"
    by (simp add: ParseHuggingFaceRepo_def ev)
  from a b r1 r2 r3 r4 r5 show ?thesis by blast
qed

subsection \<open>Dataset URLs with an empty segment\<close>

text \<open>
  C3 does not hold of the code. The dataset branch of the URL form joins the second and
  the third path segment without testing that they are non-empty, as the dataset short
  form does through \<open>isValidRepoFormat\<close>. For
  \<open>https://huggingface.co/datasets//repo\<close> the call succeeds with the identifier
  \<open>/repo\<close>, which has a leading slash and is not of the form \<open>owner/name\<close>.
  The other branches do return that form (\<open>model_identifier_normalized\<close>,
  \<open>dataset_short_form_identifier_normalized\<close>).
\<close>

theorem dataset_url_empty_segment:
  "ParseHuggingFaceRepo url_Parse_plain ''https://huggingface.co/datasets//repo''
     = (''/repo'', RepoTypeDataset, None)
   \<and> \<not> isValidRepoFormat ''/repo''"
  by (simp add: ParseHuggingFaceRepo_def url_Parse_plain_def HasPrefix_def plainScheme_def
      isLetter_def isDigit_def Trim_def slice_def isValidRepoFormat_def)

subsection \<open>A failed existence check\<close>

text \<open>
  C2, as amended. \<open>detectRemoteRepo\<close> has no error result: whatever \<open>os.Stat\<close>
  answers, it returns a classification, which is either local with an empty identifier
  and kind \<open>Unknown\<close>, or remote with the reference that \<open>ParseHuggingFaceRepo\<close>
  returned for the input. When the existence check fails because the path does not exist
  and the input is not an explicit local form, classification continues to remote
  parsing: the result is remote with the parsed reference when parsing succeeds, and local
  when parsing fails. The statement leaves open which classification is returned when the
  check fails for another reason. With every \<open>os.Stat\<close> refused for lack of
  permission, \<open>org/repo\<close> is classified as a remote model and no error reaches the
  caller, which is the counterexample to the claim as it was stated.
\<close>

theorem missing_path_continues_to_parsing:
  "(\<not> isLocalPath path \<and> stat path = Some ErrNotExist \<longrightarrow>
      detectRemoteRepo urlParse stat path =
        (case ParseHuggingFaceRepo urlParse path of
           (repo, repoType, None) \<Rightarrow> (True, repo, repoType)
         | (repo, repoType, Some err) \<Rightarrow> (False, [], RepoTypeUnknown)))
   \<and> (detectRemoteRepo urlParse stat path = (False, [], RepoTypeUnknown)
        \<or> (\<exists>repo repoType.
              ParseHuggingFaceRepo urlParse path = (repo, repoType, None)
              \<and> detectRemoteRepo urlParse stat path = (True, repo, repoType)))"
proof -
  have missing: "\<not> isLocalPath path \<and> stat path = Some ErrNotExist \<longrightarrow>
      detectRemoteRepo urlParse stat path =
        (case ParseHuggingFaceRepo urlParse path of
           (repo, repoType, None) \<Rightarrow> (True, repo, repoType)
         | (repo, repoType, Some err) \<Rightarrow> (False, [], RepoTypeUnknown))"
    by (simp add: detectRemoteRepo_def)
  obtain repo repoType err where p: "ParseHuggingFaceRepo urlParse path = (repo, repoType, err)"
    by (cases "ParseHuggingFaceRepo urlParse path") auto
  have always: "detectRemoteRepo urlParse stat path = (False, [], RepoTypeUnknown)
        \<or> (\<exists>repo repoType.
              ParseHuggingFaceRepo urlParse path = (repo, repoType, None)
              \<and> detectRemoteRepo urlParse stat path = (True, repo, repoType))"
    using p by (cases err) (auto simp: detectRemoteRepo_def)
  from missing always show ?thesis by blast
qed

theorem missing_path_continues_to_parsing_witness:
  "\<not> isLocalPath ''org/repo'' \<and> fs_empty ''org/repo'' = Some ErrNotExist
   \<and> ParseHuggingFaceRepo url_Parse_plain ''org/repo'' = (''org/repo'', RepoTypeModel, None)
   \<and> detectRemoteRepo url_Parse_plain fs_empty ''org/repo'' = (True, ''org/repo'', RepoTypeModel)
   \<and> \<not> isLocalPath ''org'' \<and> fs_empty ''org'' = Some ErrNotExist
   \<and> ParseHuggingFaceRepo url_Parse_plain ''org''
       = ([], RepoTypeUnknown, Some (InvalidRepositoryFormat ''org''))
   \<and> detectRemoteRepo url_Parse_plain fs_empty ''org'' = (False, [], RepoTypeUnknown)"
proof -
  have a: "\<not> isLocalPath ''org/repo''" "\<not> isLocalPath ''org''"
    by (simp_all add: isLocalPath_def HasPrefix_def)
  have b: "fs_empty ''org/repo'' = Some ErrNotExist" "fs_empty ''org'' = Some ErrNotExist"
    by (simp_all add: fs_empty_def)
  have c: "ParseHuggingFaceRepo url_Parse_plain ''org/repo'' = (''org/repo'', RepoTypeModel, None)"
    by (simp add: ParseHuggingFaceRepo_def HasPrefix_def isValidRepoFormat_def)
  have d: "ParseHuggingFaceRepo url_Parse_plain ''org''
       = ([], RepoTypeUnknown, Some (InvalidRepositoryFormat ''org''))"
    by (simp add: ParseHuggingFaceRepo_def HasPrefix_def isValidRepoFormat_def)
  from missing_path_continues_to_parsing [of "''org/repo''" fs_empty url_Parse_plain] a b c
  have e: "detectRemoteRepo url_Parse_plain fs_empty ''org/repo'' = (True, ''org/repo'', RepoTypeModel)"
    by simp
  from missing_path_continues_to_parsing [of "''org''" fs_empty url_Parse_plain] a b d
  have f: "detectRemoteRepo url_Parse_plain fs_empty ''org'' = (False, [], RepoTypeUnknown)"
    by simp
  from a b c d e f show ?thesis by blast
qed

theorem stat_error_propagation_counterexample:
  "\<not> isLocalPath ''org/repo''
   \<and> fs_denied ''org/repo'' = Some ErrPermission
   \<and> detectRemoteRepo url_Parse_plain fs_denied ''org/repo'' = (True, ''org/repo'', RepoTypeModel)"
  by (simp add: detectRemoteRepo_def isLocalPath_def fs_denied_def ParseHuggingFaceRepo_def
      HasPrefix_def isValidRepoFormat_def)

subsection \<open>Explicit local forms\<close>

text \<open>
  C4, as amended. An input that is exactly \<open>.\<close>, \<open>..\<close> or \<open>~\<close>, or that starts with
  \<open>./\<close>, \<open>../\<close>, \<open>/\<close>, \<open>~/\<close> or \<open>~\<close> and a backslash, is classified as local, with
  an empty identifier and kind \<open>Unknown\<close>, whatever the filesystem and the URL parser
  and whether or not the string would parse as a reference. A tilde followed by anything
  else is not an explicit local form: \<open>~org/repo\<close>, when no such path exists, is
  classified as a remote model, which is the counterexample to the claim as it was stated.
\<close>

theorem explicit_local_forms:
  assumes "path = ''.'' \<or> path = ''..'' \<or> path = ''~''
           \<or> HasPrefix path ''./'' \<or> HasPrefix path ''../'' \<or> HasPrefix path ''/''
           \<or> HasPrefix path ''~/'' \<or> HasPrefix path [CHR ''~'', CHR 0x5C]"
  shows "detectRemoteRepo urlParse stat path = (False, [], RepoTypeUnknown)"
  using assms by (auto simp: detectRemoteRepo_def isLocalPath_def)

theorem explicit_local_forms_witness:
  "HasPrefix ''./my-model'' ''./''
   \<and> ParseHuggingFaceRepo url_Parse_plain ''./my-model'' = (''./my-model'', RepoTypeModel, None)
   \<and> detectRemoteRepo url_Parse_plain fs_empty ''./my-model'' = (False, [], RepoTypeUnknown)"
proof -
  have a: "HasPrefix ''./my-model'' ''./''" by (simp add: HasPrefix_def)
  have b: "ParseHuggingFaceRepo url_Parse_plain ''./my-model'' = (''./my-model'', RepoTypeModel, None)"
    by (simp add: ParseHuggingFaceRepo_def HasPrefix_def isValidRepoFormat_def)
  from a have "''./my-model'' = ''.'' \<or> ''./my-model'' = ''..'' \<or> ''./my-model'' = ''~''
           \<or> HasPrefix ''./my-model'' ''./'' \<or> HasPrefix ''./my-model'' ''../''
           \<or> HasPrefix ''./my-model'' ''/'' \<or> HasPrefix ''./my-model'' ''~/''
           \<or> HasPrefix ''./my-model'' [CHR ''~'', CHR 0x5C]" by blast
  from explicit_local_forms [OF this, of url_Parse_plain fs_empty] a b show ?thesis by blast
qed

theorem tilde_prefix_counterexample:
  "HasPrefix ''~org/repo'' ''~''
   \<and> detectRemoteRepo url_Parse_plain fs_empty ''~org/repo'' = (True, ''~org/repo'', RepoTypeModel)"
  by (simp add: detectRemoteRepo_def isLocalPath_def fs_empty_def ParseHuggingFaceRepo_def
      HasPrefix_def isValidRepoFormat_def)

subsection \<open>Existing filesystem entries\<close>

text \<open>
  C6. An input that is not an explicit local form and for which \<open>os.Stat\<close> succeeds is
  classified as local, with an empty identifier and kind \<open>Unknown\<close>, also when it has
  the two-segment shape of a reference: \<open>models/my-model\<close> is local where the directory
  exists and a remote model where it does not.
\<close>

theorem existing_entry_is_local:
  assumes "\<not> isLocalPath path" and "stat path = None"
  shows "detectRemoteRepo urlParse stat path = (False, [], RepoTypeUnknown)"
  using assms by (simp add: detectRemoteRepo_def)

theorem existing_entry_is_local_witness:
  "\<not> isLocalPath ''models/my-model'' \<and> fs_models ''models/my-model'' = None
   \<and> isValidRepoFormat ''models/my-model''
   \<and> detectRemoteRepo url_Parse_plain fs_models ''models/my-model'' = (False, [], RepoTypeUnknown)
   \<and> detectRemoteRepo url_Parse_plain fs_empty ''models/my-model''
       = (True, ''models/my-model'', RepoTypeModel)"
proof -
  have a: "\<not> isLocalPath ''models/my-model''" by (simp add: isLocalPath_def HasPrefix_def)
  have b: "fs_models ''models/my-model'' = None" by (simp add: fs_models_def)
  have c: "isValidRepoFormat ''models/my-model''" by (simp add: isValidRepoFormat_def)
  have d: "detectRemoteRepo url_Parse_plain fs_empty ''models/my-model''
       = (True, ''models/my-model'', RepoTypeModel)"
    using a c by (simp add: detectRemoteRepo_def fs_empty_def ParseHuggingFaceRepo_def HasPrefix_def)
  from existing_entry_is_local
    [where path = "''models/my-model''" and stat = fs_models and urlParse = url_Parse_plain]
    a b c d show ?thesis by blast
qed

subsection \<open>The results of classification\<close>

text \<open>
  C7. Whenever \<open>detectRemoteRepo\<close> returns \<open>isRemote = false\<close>, the identifier is
  empty and the kind is \<open>Unknown\<close>, for every input, filesystem and URL parser.
\<close>

theorem local_result_carries_no_reference:
  assumes "detectRemoteRepo urlParse stat path = (False, repo, repoType)"
  shows "repo = [] \<and> repoType = RepoTypeUnknown"
  using assms
  by (auto simp: detectRemoteRepo_def split: if_splits prod.splits option.splits)

theorem local_result_carries_no_reference_witness:
  "fst (detectRemoteRepo url_Parse_plain fs_empty ''https://huggingface.co.evil.com/org/repo'') = False
   \<and> detectRemoteRepo url_Parse_plain fs_empty ''https://huggingface.co.evil.com/org/repo''
     = (False, [], RepoTypeUnknown)"
proof -
  let ?r = "detectRemoteRepo url_Parse_plain fs_empty ''https://huggingface.co.evil.com/org/repo''"
  have a: "fst ?r = False"
    by (simp add: detectRemoteRepo_def isLocalPath_def fs_empty_def ParseHuggingFaceRepo_def
      HasPrefix_def url_Parse_plain_def plainScheme_def isLetter_def isDigit_def)
  then have rt: "?r = (False, fst (snd ?r), snd (snd ?r))"
    by (simp add: prod_eq_iff)
  from local_result_carries_no_reference [OF rt] rt a show ?thesis by simp
qed

text \<open>
  C10. Whenever \<open>detectRemoteRepo\<close> returns \<open>isRemote = true\<close>, the identifier is
  non-empty and the kind is \<open>Model\<close> or \<open>Dataset\<close>. The function has no error result,
  and whenever \<open>ParseHuggingFaceRepo\<close> fails on the input, the classification is
  \<open>isRemote = false\<close> with an empty identifier and kind \<open>Unknown\<close>.
\<close>

theorem remote_result_carries_reference:
  "(\<forall>repo repoType. detectRemoteRepo urlParse stat path = (True, repo, repoType) \<longrightarrow>
       repo \<noteq> [] \<and> (repoType = RepoTypeModel \<or> repoType = RepoTypeDataset))
   \<and> (\<forall>repo repoType e. ParseHuggingFaceRepo urlParse path = (repo, repoType, Some e) \<longrightarrow>
       detectRemoteRepo urlParse stat path = (False, [], RepoTypeUnknown))"
proof -
  have "\<And>repo repoType. detectRemoteRepo urlParse stat path = (True, repo, repoType) \<Longrightarrow>
       repo \<noteq> [] \<and> (repoType = RepoTypeModel \<or> repoType = RepoTypeDataset)"
  proof -
    fix repo repoType
    assume "detectRemoteRepo urlParse stat path = (True, repo, repoType)"
    then have "ParseHuggingFaceRepo urlParse path = (repo, repoType, None)"
      by (auto simp: detectRemoteRepo_def split: if_splits prod.splits option.splits)
    then show "repo \<noteq> [] \<and> (repoType = RepoTypeModel \<or> repoType = RepoTypeDataset)"
      by (rule ParseHuggingFaceRepo_success)
  qed
  moreover have "\<And>repo repoType e. ParseHuggingFaceRepo urlParse path = (repo, repoType, Some e) \<Longrightarrow>
       detectRemoteRepo urlParse stat path = (False, [], RepoTypeUnknown)"
    by (simp add: detectRemoteRepo_def)
  ultimately show ?thesis by blast
qed

theorem remote_result_carries_reference_witness:
  "detectRemoteRepo url_Parse_plain fs_empty ''https://huggingface.co/datasets/org/repo''
     = (True, ''org/repo'', RepoTypeDataset)
   \<and> ''org/repo'' \<noteq> []
   \<and> ParseHuggingFaceRepo url_Parse_plain ''https://github.com/org/repo''
       = ([], RepoTypeUnknown, Some (UnsupportedHostname ''github.com''))
   \<and> detectRemoteRepo url_Parse_plain fs_empty ''https://github.com/org/repo''
       = (False, [], RepoTypeUnknown)"
proof -
  have a: "detectRemoteRepo url_Parse_plain fs_empty ''https://huggingface.co/datasets/org/repo''
     = (True, ''org/repo'', RepoTypeDataset)"
    by (simp add: detectRemoteRepo_def isLocalPath_def fs_empty_def ParseHuggingFaceRepo_def
      HasPrefix_def url_Parse_plain_def plainScheme_def isLetter_def isDigit_def Trim_def slice_def)
  have b: "ParseHuggingFaceRepo url_Parse_plain ''https://github.com/org/repo''
       = ([], RepoTypeUnknown, Some (UnsupportedHostname ''github.com''))"
    by (simp add: ParseHuggingFaceRepo_def
      HasPrefix_def url_Parse_plain_def plainScheme_def isLetter_def isDigit_def)
  from remote_result_carries_reference [of url_Parse_plain fs_empty "''https://huggingface.co/datasets/org/repo''"] a
  have c: "''org/repo'' \<noteq> []" by blast
  from remote_result_carries_reference [of url_Parse_plain fs_empty "''https://github.com/org/repo''"] b
  have d: "detectRemoteRepo url_Parse_plain fs_empty ''https://github.com/org/repo''
       = (False, [], RepoTypeUnknown)" by blast
  from a b c d show ?thesis by blast
qed

subsection \<open>Package defaults\<close>

text \<open>
  C9. \<open>buildPackageFromRepo\<close> sets the name to the override when it is non-empty,
  else to the last segment of the identifier when it splits on \<open>/\<close> into two or more
  segments, else to the empty string; the description to the override, else empty; the
  authors to the override alone when it is non-empty, else to the second-to-last segment
  alone when there are two or more segments, else to the empty sequence. Each field is
  decided by its own override. For \<open>myorg/mymodel\<close> without overrides the name is
  \<open>mymodel\<close>, the authors are \<open>myorg\<close> and the description is empty.
\<close>

theorem buildPackageFromRepo_defaults:
  "buildPackageFromRepo repo name description author =
     \<lparr>Name = (if name \<noteq> [] then name
              else if 2 \<le> length (Split repo (CHR ''/'')) then last (Split repo (CHR ''/''))
              else []),
      Description = (if description \<noteq> [] then description else []),
      Authors = (if author \<noteq> [] then [author]
                 else if 2 \<le> length (Split repo (CHR ''/''))
                 then [last (butlast (Split repo (CHR ''/'')))]
                 else [])\<rparr>
   \<and> buildPackageFromRepo ''myorg/mymodel'' [] [] []
       = \<lparr>Name = ''mymodel'', Description = [], Authors = [''myorg'']\<rparr>"
proof -
  have l: "\<And>xs::string list. 2 \<le> length xs \<Longrightarrow> xs ! (length xs - Suc 0) = last xs"
  proof -
    fix xs :: "string list"
    assume "2 \<le> length xs"
    then have "xs \<noteq> []" by auto
    then show "xs ! (length xs - Suc 0) = last xs" by (simp add: last_conv_nth)
  qed
  have bl: "\<And>xs::string list. 2 \<le> length xs \<Longrightarrow> xs ! (length xs - 2) = last (butlast xs)"
  proof -
    fix xs :: "string list"
    assume h: "2 \<le> length xs"
    then have "butlast xs \<noteq> []" by (cases xs) (auto split: if_splits)
    then have "last (butlast xs) = butlast xs ! (length (butlast xs) - 1)"
      by (rule last_conv_nth)
    also have "\<dots> = xs ! (length xs - 2)"
      using h by (simp add: nth_butlast numeral_2_eq_2)
    finally show "xs ! (length xs - 2) = last (butlast xs)" by simp
  qed
  have ex: "buildPackageFromRepo ''myorg/mymodel'' [] [] []
       = \<lparr>Name = ''mymodel'', Description = [], Authors = [''myorg'']\<rparr>"
    by (simp add: buildPackageFromRepo_def)
  show ?thesis
    using ex by (simp add: buildPackageFromRepo_def Let_def l bl)
qed

theorem buildPackageFromRepo_defaults_witness:
  "buildPackageFromRepo ''myorg/mymodel'' ''custom-name'' [] []
     = \<lparr>Name = ''custom-name'', Description = [], Authors = [''myorg'']\<rparr>
   \<and> buildPackageFromRepo ''myorg/mymodel'' [] ''My model description'' []
     = \<lparr>Name = ''mymodel'', Description = ''My model description'', Authors = [''myorg'']\<rparr>
   \<and> buildPackageFromRepo ''myorg/mymodel'' [] [] ''custom-author''
     = \<lparr>Name = ''mymodel'', Description = [], Authors = [''custom-author'']\<rparr>
   \<and> buildPackageFromRepo ''mymodel'' [] [] []
     = \<lparr>Name = [], Description = [], Authors = []\<rparr>"
proof -
  have s: "Split ''myorg/mymodel'' (CHR ''/'') = [''myorg'', ''mymodel'']" 
          "Split ''mymodel'' (CHR ''/'') = [''mymodel'']" by simp_all
  show ?thesis
    using buildPackageFromRepo_defaults [of "''myorg/mymodel''" "''custom-name''" "[]" "[]"]
      buildPackageFromRepo_defaults [of "''myorg/mymodel''" "[]" "''My model description''" "[]"]
      buildPackageFromRepo_defaults [of "''myorg/mymodel''" "[]" "[]" "''custom-author''"]
      buildPackageFromRepo_defaults [of "''mymodel''" "[]" "[]" "[]"]
    by (simp add: s)
qed

end
